theory Spec2Isabelle
  imports Complex_Main "HOL-Library.Word"
begin

section \<open>Python values and exceptions\<close>

text \<open>
  The exceptions the modelled code raises or handles. \<open>WebsocketClosed\<close> carries the
  close code and the close reason, as the attributes \<open>e.code\<close> and \<open>e.reason\<close> read
  by \<open>Client.handle_shard\<close>. \<open>RuntimeError\<close> is what \<open>handle_shard\<close> raises when it
  gives up; \<open>ValueError\<close> is what \<open>edit_profile\<close> and \<open>int\<close> raise on invalid input.
\<close>

datatype exc =
    WebsocketClosed int string
  | WebsocketUnusable
  | ReconnectWebsocket
  | ChunkGuilds
  | RuntimeError
  | ValueError
  | TypeError
  | NameError
  | IndexError
  | AttributeError
  | OtherError string

text \<open>
  The values a keyword argument of an entity constructor can hold: \<open>None\<close>, an integer,
  a string, a boolean, a list of integers, or a reference to a client object.
\<close>

datatype pyval =
    VNone
  | VInt int
  | VStr string
  | VBool bool
  | VList "int list"
  | VClient nat

subsection \<open>The built-ins \<open>int\<close> and \<open>str\<close> on decimal strings\<close>

definition is_digit :: "char \<Rightarrow> bool" where
  "is_digit c = (48 \<le> (of_char c :: nat) \<and> (of_char c :: nat) \<le> 57)"

definition digit_val :: "char \<Rightarrow> int" where
  "digit_val c = int (of_char c) - 48"

definition digit_char :: "int \<Rightarrow> char" where
  "digit_char d = char_of (d + 48)"

text \<open>The white space \<open>int\<close> strips from both ends of a string.\<close>

definition is_space :: "char \<Rightarrow> bool" where
  "is_space c = ((of_char c :: nat) \<in> {9, 10, 11, 12, 13, 28, 29, 30, 31, 32, 133, 160})"

definition strip :: "string \<Rightarrow> string" where
  "strip s = rev (dropWhile is_space (rev (dropWhile is_space s)))"

text \<open>
  The digit part of an integer literal: decimal digits, with single underscores
  allowed between digits. \<open>parse_digits acc prev_digit s\<close> returns the value read,
  or \<open>None\<close> when \<open>s\<close> is not of that form.
\<close>

fun parse_digits :: "int \<Rightarrow> bool \<Rightarrow> string \<Rightarrow> int option" where
  "parse_digits acc prev [] = (if prev then Some acc else None)"
| "parse_digits acc prev (c # cs) =
     (if is_digit c then parse_digits (10 * acc + digit_val c) True cs
      else if c = CHR ''_'' \<and> prev \<and> cs \<noteq> [] then parse_digits acc False cs
      else None)"

definition int_of_str :: "string \<Rightarrow> exc + int" where
  "int_of_str s =
     (case strip s of
        [] \<Rightarrow> Inl ValueError
      | c # cs \<Rightarrow>
          (if c = CHR ''-'' then
             (case parse_digits 0 False cs of None \<Rightarrow> Inl ValueError | Some n \<Rightarrow> Inr (- n))
           else if c = CHR ''+'' then
             (case parse_digits 0 False cs of None \<Rightarrow> Inl ValueError | Some n \<Rightarrow> Inr n)
           else
             (case parse_digits 0 False (c # cs) of None \<Rightarrow> Inl ValueError | Some n \<Rightarrow> Inr n)))"

text \<open>\<open>int(x)\<close> for the values of \<open>pyval\<close>.\<close>

fun py_int :: "pyval \<Rightarrow> exc + int" where
  "py_int (VInt i) = Inr i"
| "py_int (VBool b) = Inr (if b then 1 else 0)"
| "py_int (VStr s) = int_of_str s"
| "py_int VNone = Inl TypeError"
| "py_int (VList xs) = Inl TypeError"
| "py_int (VClient c) = Inl TypeError"

text \<open>The decimal digits of a non-negative integer, most significant first.\<close>

function dec_digits :: "int \<Rightarrow> string" where
  "dec_digits n = (if n < 10 then [digit_char n] else dec_digits (n div 10) @ [digit_char (n mod 10)])"
  by pat_completeness auto
termination
  by (relation "measure nat") auto

declare dec_digits.simps [simp del]

text \<open>\<open>str(n)\<close> for an integer \<open>n\<close>.\<close>

definition str_of_int :: "int \<Rightarrow> string" where
  "str_of_int n = (if n < 0 then CHR ''-'' # dec_digits (- n) else dec_digits n)"

text \<open>\<open>==\<close> on the values of \<open>pyval\<close>: a boolean compares as the integer 0 or 1.\<close>

fun py_eq :: "pyval \<Rightarrow> pyval \<Rightarrow> bool" where
  "py_eq (VInt a) (VBool b) = (a = (if b then 1 else 0))"
| "py_eq (VBool b) (VInt a) = (a = (if b then 1 else 0))"
| "py_eq a b = (a = b)"

section \<open>Base classes (\<open>curious/dataclasses/bases.py\<close>)\<close>

definition DISCORD_EPOCH :: int where
  "DISCORD_EPOCH = 1420070400000"

text \<open>\<open>IDObject\<close>: the only slot is \<open>id\<close>. The constructor converts a string with \<open>int\<close>
  and stores every other value as it is.\<close>

record idobject =
  id_of :: pyval

definition IDObject_init :: "pyval \<Rightarrow> exc + idobject" where
  "IDObject_init i =
     (case i of
        VStr s \<Rightarrow> (case int_of_str s of Inl e \<Rightarrow> Inl e | Inr n \<Rightarrow> Inr \<lparr>id_of = VInt n\<rparr>)
      | _ \<Rightarrow> Inr \<lparr>id_of = i\<rparr>)"

text \<open>\<open>IDObject.__eq__\<close>: \<open>other.id == self.id\<close>.\<close>

definition IDObject_eq :: "idobject \<Rightarrow> idobject \<Rightarrow> bool" where
  "IDObject_eq self other = py_eq (id_of other) (id_of self)"

subsection \<open>Floating point: \<open>int / int\<close> and \<open>datetime.utcfromtimestamp\<close>\<close>

text \<open>
  \<open>timestamp\<close> divides two integers with \<open>/\<close>, which gives the double nearest to the
  quotient, and passes it to \<open>utcfromtimestamp\<close>. A double is modelled by the rational
  number it stands for. \<open>binary64 x\<close> is the double nearest to \<open>x\<close>, ties to the even
  significand: with \<open>2 ^ e \<le> \<bar>x\<bar> < 2 ^ (e + 1)\<close> it is the nearest multiple of
  \<open>2 ^ (e - 52)\<close>. Overflow and subnormal numbers are outside the model; the values
  here lie between \<open>2 ^ (- 1022)\<close> and \<open>2 ^ 1024\<close>.
\<close>

definition pow2 :: "int \<Rightarrow> rat" where
  "pow2 e = (if 0 \<le> e then 2 ^ nat e else 1 / 2 ^ nat (- e))"

definition round_half_even :: "rat \<Rightarrow> int" where
  "round_half_even x =
     (let f = \<lfloor>x\<rfloor>; r = x - of_int f
      in if r < 1 / 2 then f else if 1 / 2 < r then f + 1 else if even f then f else f + 1)"

text \<open>The number of binary digits of a positive integer.\<close>

function bitlen :: "int \<Rightarrow> nat" where
  "bitlen n = (if n \<le> 0 then 0 else Suc (bitlen (n div 2)))"
  by pat_completeness auto
termination
  by (relation "measure nat") auto

declare bitlen.simps [simp del]

text \<open>\<open>ilog2 x\<close> is the \<open>e\<close> with \<open>2 ^ e \<le> x < 2 ^ (e + 1)\<close>, for \<open>x > 0\<close>.\<close>

definition ilog2 :: "rat \<Rightarrow> int" where
  "ilog2 x =
     (if 1 \<le> x then int (bitlen \<lfloor>x\<rfloor>) - 1
      else - int (bitlen (\<lceil>1 / x\<rceil> - 1)))"

definition binary64 :: "rat \<Rightarrow> rat" where
  "binary64 x =
     (if x = 0 then 0
      else (let u = pow2 (ilog2 \<bar>x\<bar> - 52)
            in sgn x * of_int (round_half_even (\<bar>x\<bar> / u)) * u))"

text \<open>\<open>a / b\<close> on integers (\<open>b\<close> not zero): the quotient, correctly rounded.\<close>

definition true_div :: "int \<Rightarrow> int \<Rightarrow> rat" where
  "true_div a b = binary64 (of_int a / of_int b)"

text \<open>A naive \<open>datetime\<close> and the proleptic Gregorian date of a day number (days since
  1970-01-01).\<close>

record datetime =
  year :: int
  month :: int
  day :: int
  hour :: int
  minute :: int
  second :: int
  microsecond :: int

definition civil_from_days :: "int \<Rightarrow> int \<times> int \<times> int" where
  "civil_from_days days =
     (let z = days + 719468;
          era = z div 146097;
          doe = z - era * 146097;
          yoe = (doe - doe div 1460 + doe div 36524 - doe div 146096) div 365;
          doy = doe - (365 * yoe + yoe div 4 - yoe div 100);
          mp = (5 * doy + 2) div 153;
          d = doy - (153 * mp + 2) div 5 + 1;
          m = (if mp < 10 then mp + 3 else mp - 9)
      in (if m \<le> 2 then yoe + era * 400 + 1 else yoe + era * 400, m, d))"

definition datetime_of :: "int \<Rightarrow> int \<Rightarrow> datetime" where
  "datetime_of secs us =
     (case civil_from_days (secs div 86400) of
        (y, m, d) \<Rightarrow>
          \<lparr>year = y, month = m, day = d,
           hour = (secs mod 86400) div 3600,
           minute = (secs mod 3600) div 60,
           second = secs mod 60,
           microsecond = us\<rparr>)"

text \<open>
  \<open>utcfromtimestamp(t)\<close>: \<open>modf\<close> splits \<open>t\<close> into its integral and fractional parts
  (exactly); the fractional part is multiplied by \<open>1e6\<close> (a floating-point product) and
  rounded half to even to the microseconds; a result of a whole second is carried. A
  time outside the years 1 to 9999 raises \<open>ValueError\<close>.
\<close>

definition trunc :: "rat \<Rightarrow> int" where
  "trunc t = (if 0 \<le> t then \<lfloor>t\<rfloor> else \<lceil>t\<rceil>)"

definition utcfromtimestamp :: "rat \<Rightarrow> exc + datetime" where
  "utcfromtimestamp t =
     (let intpart = trunc t;
          floatpart = round_half_even (binary64 ((t - of_int intpart) * 1000000));
          secs = (if 1000000 \<le> floatpart then intpart + 1 else if floatpart < 0 then intpart - 1 else intpart);
          us = (if 1000000 \<le> floatpart then floatpart - 1000000 else if floatpart < 0 then floatpart + 1000000 else floatpart)
      in if secs < - 62135596800 \<or> 253402300799 < secs then Inl ValueError
         else Inr (datetime_of secs us))"

text \<open>The property \<open>IDObject.timestamp\<close>.\<close>

definition timestamp :: "idobject \<Rightarrow> exc + datetime" where
  "timestamp self =
     (case py_int (id_of self) of
        Inl e \<Rightarrow> Inl e
      | Inr i \<Rightarrow> utcfromtimestamp (true_div (drop_bit 22 i + DISCORD_EPOCH) 1000))"

text \<open>
  The specification's \<open>utc_datetime_from_unix_millis\<close>: the UTC calendar time that lies
  the given number of milliseconds after the Unix epoch.
\<close>

definition utc_datetime_from_unix_millis :: "int \<Rightarrow> datetime" where
  "utc_datetime_from_unix_millis ms = datetime_of (ms div 1000) ((ms mod 1000) * 1000)"

section \<open>Custom emoji (\<open>curious/dataclasses/emoji.py\<close>)\<close>

text \<open>
  The slots of \<open>Emoji\<close>, with \<open>_bot\<close> inherited from \<open>Dataclass\<close>. The id has gone through
  \<open>int\<close>, so it is an integer; the other fields hold whatever the keyword arguments held.
\<close>

record emoji =
  emoji_id :: int
  bot :: pyval
  emoji_name :: pyval
  role_ids :: pyval
  require_colons :: pyval
  managed :: pyval
  guild_id :: pyval
  animated :: pyval

text \<open>\<open>kwargs.get(k)\<close> and \<open>kwargs.get(k, d)\<close>.\<close>

definition kw_get :: "(string \<rightharpoonup> pyval) \<Rightarrow> string \<Rightarrow> pyval \<Rightarrow> pyval" where
  "kw_get kwargs k d = (case kwargs k of None \<Rightarrow> d | Some v \<Rightarrow> v)"

text \<open>
  \<open>Emoji.__init__(**kwargs)\<close>, through \<open>Dataclass.__init__(id, client)\<close> and
  \<open>IDObject.__init__(id)\<close>: \<open>int(kwargs.get("id"))\<close> is the only step that can raise;
  \<open>Dataclass.__init__\<close> stores \<open>kwargs.get("client")\<close> in \<open>_bot\<close> unchecked.
\<close>

definition Dataclass_init :: "pyval \<Rightarrow> pyval \<Rightarrow> exc + (idobject \<times> pyval)" where
  "Dataclass_init i client =
     (case IDObject_init i of Inl e \<Rightarrow> Inl e | Inr obj \<Rightarrow> Inr (obj, client))"

definition Emoji_init :: "(string \<rightharpoonup> pyval) \<Rightarrow> exc + emoji" where
  "Emoji_init kwargs =
     (case py_int (kw_get kwargs ''id'' VNone) of
        Inl e \<Rightarrow> Inl e
      | Inr n \<Rightarrow>
          (case Dataclass_init (VInt n) (kw_get kwargs ''client'' VNone) of
             Inl e \<Rightarrow> Inl e
           | Inr (obj, b) \<Rightarrow>
               Inr \<lparr>emoji_id = n,
                    bot = b,
                    emoji_name = kw_get kwargs ''name'' VNone,
                    role_ids = kw_get kwargs ''roles'' (VList []),
                    require_colons = kw_get kwargs ''require_colons'' (VBool False),
                    managed = kw_get kwargs ''managed'' (VBool False),
                    guild_id = VNone,
                    animated = kw_get kwargs ''animated'' (VBool False)\<rparr>))"

text \<open>
  What an \<open>Emoji\<close> can be compared with: a plain string, another \<open>Emoji\<close>, or an object
  without an \<open>id\<close> attribute (on which \<open>other.id\<close> raises \<open>AttributeError\<close>).
\<close>

datatype operand = OStr string | OEmoji emoji | ONoId

text \<open>\<open>Emoji.__eq__\<close>.\<close>

fun Emoji_eq :: "emoji \<Rightarrow> operand \<Rightarrow> exc + bool" where
  "Emoji_eq self (OStr s) = Inr False"
| "Emoji_eq self (OEmoji other) = Inr (emoji_id self = emoji_id other)"
| "Emoji_eq self ONoId = Inl AttributeError"

section \<open>The client (\<open>curious/core/client.py\<close>)\<close>

subsection \<open>Strings\<close>

text \<open>\<open>s.startswith(p)\<close>, \<open>sub in s\<close> and \<open>s.lower()\<close> on ASCII letters.\<close>

fun startswith :: "string \<Rightarrow> string \<Rightarrow> bool" where
  "startswith s [] = True"
| "startswith [] (p # ps) = False"
| "startswith (c # cs) (p # ps) = (c = p \<and> startswith cs ps)"

fun contains :: "string \<Rightarrow> string \<Rightarrow> bool" where
  "contains [] sub = (sub = [])"
| "contains (c # cs) sub = (startswith (c # cs) sub \<or> contains cs sub)"

definition lower_char :: "char \<Rightarrow> char" where
  "lower_char c =
     (if 65 \<le> (of_char c :: nat) \<and> (of_char c :: nat) \<le> 90 then char_of ((of_char c :: nat) + 32) else c)"

definition lower :: "string \<Rightarrow> string" where
  "lower s = map lower_char s"

subsection \<open>What the client does to the outside\<close>

text \<open>
  The calls the client makes on its collaborators, in the order it makes them:
  \<open>Fire n args\<close> is \<open>self.events.fire_event(n, *args, gateway=..., client=self)\<close>,
  \<open>Connect\<close> is \<open>Gateway.from_token(...)\<close>, \<open>ResetState i\<close> is \<open>self.state._reset(i)\<close>,
  \<open>Reconnect r\<close> is \<open>gw.reconnect(resume=r)\<close>, \<open>Close c r\<close> is
  \<open>gateway.close(code=c, reason=r)\<close>, \<open>GetChunks\<close> is \<open>gateway._get_chunks()\<close>, and the
  three log actions are the calls on the module's logger that carry data.
\<close>

datatype action =
    Fire string "string list"
  | Connect
  | ResetState nat
  | Reconnect bool
  | Close int string
  | GetChunks
  | LogWarning string
  | LogException string string

subsection \<open>\<open>Client.fire_event\<close>\<close>

definition IGNORE_READY :: "string list" where
  "IGNORE_READY = [''connect'', ''guild_streamed'', ''guild_chunk'', ''guild_available'', ''guild_sync'']"

text \<open>
  \<open>events_fire\<close> is \<open>EventManager.fire_event\<close>: it says whether firing an event raises.
  \<open>ready\<close> is what \<open>self.state.is_ready(gateway.shard_id)\<close> returns at the call.
\<close>

definition Client_fire_event ::
  "(string \<Rightarrow> string list \<Rightarrow> exc option) \<Rightarrow> bool \<Rightarrow> string \<Rightarrow> string list \<Rightarrow> action list \<times> exc option"
where
  "Client_fire_event events_fire ready event_name args =
     (if \<not> ready \<and> (event_name \<notin> set IGNORE_READY \<and> \<not> startswith event_name ''gateway_'')
      then ([], None)
      else ([Fire event_name args], events_fire event_name args))"

subsection \<open>\<open>Client.handle_dispatches\<close>\<close>

text \<open>
  What a translation routine of the state layer gives when called with the gateway and
  the payload: a result (directly or once awaited), which is a plain event name or a
  tuple; a failure (raised by the call or by the await); or an asynchronous generator,
  which yields tuples and may end by raising.
\<close>

datatype routine_result = RName string | RTuple "string list"

datatype routine_outcome =
    Value routine_result
  | Failure exc
  | AsyncGen "string list list" "exc option"

text \<open>Firing a tuple \<open>i\<close>: \<open>fire_event(i[0], *i[1:], ...)\<close>; \<open>i[0]\<close> raises on the empty tuple.\<close>

definition fire_tuple ::
  "(string \<Rightarrow> string list \<Rightarrow> exc option) \<Rightarrow> string list \<Rightarrow> action list \<times> exc option"
where
  "fire_tuple events_fire i =
     (case i of
        [] \<Rightarrow> ([], Some IndexError)
      | n # args \<Rightarrow> ([Fire n args], events_fire n args))"

fun fire_gen ::
  "(string \<Rightarrow> string list \<Rightarrow> exc option) \<Rightarrow> string list list \<Rightarrow> exc option \<Rightarrow> action list \<times> exc option"
where
  "fire_gen events_fire [] fin = ([], fin)"
| "fire_gen events_fire (i # rest) fin =
     (case fire_tuple events_fire i of
        (acts, Some e) \<Rightarrow> (acts, Some e)
      | (acts, None) \<Rightarrow>
          (case fire_gen events_fire rest fin of (acts', r) \<Rightarrow> (acts @ acts', r)))"

text \<open>The body of the second \<open>try\<close> of \<open>handle_dispatches\<close>.\<close>

definition dispatch_body ::
  "(string \<Rightarrow> string list \<Rightarrow> exc option) \<Rightarrow> routine_outcome \<Rightarrow> action list \<times> exc option"
where
  "dispatch_body events_fire outcome =
     (case outcome of
        Failure e \<Rightarrow> ([], Some e)
      | AsyncGen items fin \<Rightarrow> fire_gen events_fire items fin
      | Value (RName n) \<Rightarrow> ([Fire n []], events_fire n [])
      | Value (RTuple t) \<Rightarrow> fire_tuple events_fire t)"

text \<open>
  The names an expression inside \<open>handle_dispatches\<close> can refer to: the locals of the
  function and the globals of the module \<open>client.py\<close> (its imports, \<open>logger\<close> and its two
  classes). A name in neither, and not a built-in, raises \<open>NameError\<close> when evaluated.
\<close>

definition handle_dispatches_locals :: "string list" where
  "handle_dispatches_locals =
     [''self'', ''ctx'', ''name'', ''dispatch'', ''handle_name'', ''handler'', ''result'',
      ''gen'', ''i'']"

definition module_globals :: "string list" where
  "module_globals =
     [''collections'', ''enum'', ''functools'', ''inspect'', ''logging'', ''typing'',
      ''MappingProxyType'', ''multio'', ''WebsocketClosed'', ''WebsocketUnusable'',
      ''EventContext'', ''EventManager'', ''ev_dec'', ''ChunkGuilds'', ''Gateway'',
      ''ReconnectWebsocket'', ''HTTPClient'', ''dt_channel'', ''dt_guild'', ''dt_member'',
      ''AppInfo'', ''Invite'', ''Game'', ''Status'', ''BotUser'', ''User'', ''Webhook'',
      ''Widget'', ''base64ify'', ''logger'', ''BotType'', ''Client'']"

definition name_resolves :: "string \<Rightarrow> bool" where
  "name_resolves n = (n \<in> set handle_dispatches_locals \<or> n \<in> set module_globals)"

text \<open>
  The \<open>except Exception\<close> clause: the message of \<open>logger.exception\<close> is the f-string
  \<open>f"Error decoding event {event} with data {dispatch}!"\<close>, evaluated before the call;
  then the gateway is closed and the exception is raised again.
\<close>

definition on_dispatch_error :: "string \<Rightarrow> exc \<Rightarrow> action list \<times> exc option" where
  "on_dispatch_error dispatch e =
     (if name_resolves ''event''
      then ([LogException ''event'' dispatch, Close 1006 ''Internal client error''], Some e)
      else ([], Some NameError))"

text \<open>
  \<open>state_attr\<close> is \<open>getattr(self.state, ...)\<close>: the routine of that name, if the state
  layer has one, already applied to the gateway and the payload.
\<close>

definition handle_dispatches ::
  "(string \<Rightarrow> routine_outcome option) \<Rightarrow> (string \<Rightarrow> string list \<Rightarrow> exc option) \<Rightarrow>
   string \<Rightarrow> string \<Rightarrow> action list \<times> exc option"
where
  "handle_dispatches state_attr events_fire name dispatch =
     (case state_attr (''handle_'' @ lower name) of
        None \<Rightarrow> ([LogWarning name], None)
      | Some outcome \<Rightarrow>
          (case dispatch_body events_fire outcome of
             (acts, None) \<Rightarrow> (acts, None)
           | (acts, Some ChunkGuilds) \<Rightarrow> (acts @ [GetChunks], None)
           | (acts, Some e) \<Rightarrow>
               (case on_dispatch_error dispatch e of (acts', r) \<Rightarrow> (acts @ acts', r))))"

subsection \<open>\<open>Client.handle_shard\<close>\<close>

text \<open>
  One connection of a shard, as the loop sees it: the session id the gateway holds when
  its event sequence ends, the events the sequence yields (each with the readiness of the
  shard when it is fired), how the sequence ends (\<open>None\<close>: exhausted; \<open>Some e\<close>: raising
  \<open>e\<close>), and what \<open>gw.reconnect\<close> does if called (\<open>None\<close>: returns).
\<close>

record connection =
  session_id :: "string option"
  gw_events :: "(string \<times> string list \<times> bool) list"
  events_end :: "exc option"
  reconnect_result :: "exc option"

datatype attempt = ConnectFails | Connected connection

datatype shard_end = Returned | Raised exc | Pending nat

text \<open>The \<open>async for\<close> over \<open>gw.events()\<close>: every event goes through \<open>self.fire_event\<close>.\<close>

fun consume ::
  "(string \<Rightarrow> string list \<Rightarrow> exc option) \<Rightarrow> (string \<times> string list \<times> bool) list \<Rightarrow> exc option \<Rightarrow>
   action list \<times> exc option"
where
  "consume events_fire [] fin = ([], fin)"
| "consume events_fire ((n, args, ready) # es) fin =
     (case Client_fire_event events_fire ready n args of
        (acts, Some e) \<Rightarrow> (acts, Some e)
      | (acts, None) \<Rightarrow>
          (case consume events_fire es fin of (acts', r) \<Rightarrow> (acts @ acts', r)))"

text \<open>
  How the inner \<open>try\<close> statement ends: by \<open>return\<close>, by falling through, or by an
  exception that leaves it.
\<close>

datatype inner_end = IReturn | IDone | IRaise exc

definition after_reconnect :: "connection \<Rightarrow> inner_end" where
  "after_reconnect c = (case reconnect_result c of None \<Rightarrow> IDone | Some e \<Rightarrow> IRaise e)"

text \<open>The clause \<open>except WebsocketClosed as e\<close>.\<close>

definition on_closed :: "nat \<Rightarrow> connection \<Rightarrow> int \<Rightarrow> string \<Rightarrow> action list \<times> inner_end" where
  "on_closed shard_id c code reason =
     (if reason = ''Client closed connection'' then ([], IReturn)
      else if code \<in> {1000, 4007} \<or> session_id c = None
        then ([ResetState shard_id, Reconnect False], after_reconnect c)
      else if code \<notin> {4004, 4011}
        then ([Reconnect True], after_reconnect c)
      else ([], IRaise (WebsocketClosed code reason)))"

text \<open>The inner \<open>try\<close> statement, given how the consumption of the events ended.\<close>

definition inner_try :: "nat \<Rightarrow> connection \<Rightarrow> exc option \<Rightarrow> action list \<times> inner_end" where
  "inner_try shard_id c ended =
     (case ended of
        None \<Rightarrow> ([], IDone)
      | Some (WebsocketClosed code reason) \<Rightarrow> on_closed shard_id c code reason
      | Some ReconnectWebsocket \<Rightarrow> ([Reconnect True], after_reconnect c)
      | Some e \<Rightarrow> ([], IRaise e))"

text \<open>
  The outer \<open>try\<close> statement after a successful connection, where \<open>total_tries\<close> is 0:
  \<open>Inl n\<close> goes round the loop with \<open>total_tries = n\<close>, \<open>Inr r\<close> leaves \<open>handle_shard\<close>.
\<close>

definition outer_try ::
  "(string \<Rightarrow> string list \<Rightarrow> exc option) \<Rightarrow> nat \<Rightarrow> connection \<Rightarrow> action list \<times> (nat + shard_end)"
where
  "outer_try events_fire shard_id c =
     (case consume events_fire (gw_events c) (events_end c) of
        (acts, ended) \<Rightarrow>
          (case inner_try shard_id c ended of
             (acts', IReturn) \<Rightarrow> (acts @ acts', Inr Returned)
           | (acts', IDone) \<Rightarrow> (acts @ acts', Inl 0)
           | (acts', IRaise (WebsocketClosed code reason)) \<Rightarrow> (acts @ acts', Inl (0 + 1))
           | (acts', IRaise WebsocketUnusable) \<Rightarrow> (acts @ acts', Inl (0 + 1))
           | (acts', IRaise e) \<Rightarrow> (acts @ acts', Inr (Raised e))))"

text \<open>
  The loop of \<open>handle_shard\<close>, run against a script of connection attempts. When the
  script is used up the loop is still running: \<open>Pending n\<close>, with \<open>n\<close> the counter.
\<close>

fun handle_shard ::
  "(string \<Rightarrow> string list \<Rightarrow> exc option) \<Rightarrow> nat \<Rightarrow> nat \<Rightarrow> attempt list \<Rightarrow> action list \<times> shard_end"
where
  "handle_shard events_fire shard_id total_tries script =
     (if total_tries = 10 then ([], Raised RuntimeError)
      else
        (case script of
           [] \<Rightarrow> ([], Pending total_tries)
         | ConnectFails # rest \<Rightarrow>
             (case handle_shard events_fire shard_id (total_tries + 1) rest of
                (acts, r) \<Rightarrow> (Connect # acts, r))
         | Connected c # rest \<Rightarrow>
             (case outer_try events_fire shard_id c of
                (acts, Inr r) \<Rightarrow> (Connect # acts, r)
              | (acts, Inl n) \<Rightarrow>
                  (case handle_shard events_fire shard_id n rest of
                     (acts', r) \<Rightarrow> (Connect # acts @ acts', r)))))"

declare handle_shard.simps [simp del]

subsection \<open>\<open>Client.edit_profile\<close>\<close>

text \<open>
  The requests the client sends through its HTTP layer: \<open>EditUser u a p\<close> is
  \<open>self.http.edit_user(u, a, p)\<close> and \<open>GetGuildMembers g l a\<close> is
  \<open>self.http.get_guild_members(guild_id=g, limit=l, after=a)\<close>.
\<close>

datatype http_call =
    EditUser "string option" "string option" "string option"
  | GetGuildMembers int int "int option"

text \<open>The checks under \<open>if username:\<close>, in the order of the source.\<close>

definition check_username :: "string \<Rightarrow> exc option" where
  "check_username username =
     (if list_ex (contains username) [''@'', '':'', ''```''] then Some ValueError
      else if username \<in> set [''discordtag'', ''everyone'', ''here''] then Some ValueError
      else if \<not> (2 \<le> length username \<and> length username \<le> 32) then Some ValueError
      else None)"

text \<open>
  \<open>base64ify\<close> is the helper of \<open>curious.util\<close> that encodes the avatar, and
  \<open>edit_user_result\<close> says whether the HTTP request raises. \<open>if username:\<close> and
  \<open>if avatar:\<close> are false on \<open>None\<close> and on the empty string.
\<close>

definition edit_profile ::
  "(string \<Rightarrow> string) \<Rightarrow> exc option \<Rightarrow> bool \<Rightarrow> string option \<Rightarrow> string option \<Rightarrow> string option \<Rightarrow>
   http_call list \<times> exc option"
where
  "edit_profile base64ify edit_user_result user_bot username avatar password =
     (if \<not> user_bot \<and> password = None then ([], Some ValueError)
      else
        (case (case username of None \<Rightarrow> None | Some u \<Rightarrow> if u \<noteq> [] then check_username u else None) of
           Some e \<Rightarrow> ([], Some e)
         | None \<Rightarrow>
             ([EditUser username
                 (case avatar of None \<Rightarrow> None | Some a \<Rightarrow> if a \<noteq> [] then Some (base64ify a) else Some a)
                 password],
              edit_user_result)))"

subsection \<open>\<open>Client.download_guild_members\<close>\<close>

text \<open>
  A raw member as the HTTP layer returns it: \<open>user_id\<close> is \<open>datum["user"]["id"]\<close>, the
  rest of the mapping is \<open>payload\<close>. A \<open>Member\<close> object keeps the raw data and the guild
  id assigned after construction.
\<close>

record member_datum =
  user_id :: int
  payload :: string

record member =
  datum :: member_datum
  member_guild_id :: int

text \<open>
  \<open>self.http.get_guild_members\<close>: from the state of the service, a guild id, a limit and
  an \<open>after\<close> cursor to a page (or a failure) and the next state.
\<close>

type_synonym 's http_members = "'s \<Rightarrow> int \<Rightarrow> int \<Rightarrow> int option \<Rightarrow> (exc + member_datum list) \<times> 's"

text \<open>
  The \<open>while True\<close> loop of the exhaustive mode. It ends only when the service returns
  an empty or a short page, so the model is a partial function: \<open>None\<close> is a loop that
  never ends. \<open>calls\<close> records the requests issued so far.
\<close>

partial_function (option) get_all_loop ::
  "'s http_members \<Rightarrow> int \<Rightarrow> int \<Rightarrow> 's \<Rightarrow> http_call list \<Rightarrow> int \<Rightarrow> member_datum list \<Rightarrow>
   ((exc + member_datum list) \<times> 's \<times> http_call list) option"
where
  "get_all_loop http gid limit s calls last_id member_data =
     (case http s gid limit (Some last_id) of
        (Inl e, s') \<Rightarrow> Some (Inl e, s', calls @ [GetGuildMembers gid limit (Some last_id)])
      | (Inr next_data, s') \<Rightarrow>
          (if next_data = [] then
             Some (Inr member_data, s', calls @ [GetGuildMembers gid limit (Some last_id)])
           else if int (length next_data) < limit then
             Some (Inr (member_data @ next_data), s', calls @ [GetGuildMembers gid limit (Some last_id)])
           else
             get_all_loop http gid limit s' (calls @ [GetGuildMembers gid limit (Some last_id)])
               (user_id (last (member_data @ next_data))) (member_data @ next_data)))"

definition download_guild_members ::
  "'s http_members \<Rightarrow> 's \<Rightarrow> int \<Rightarrow> int option \<Rightarrow> int \<Rightarrow> bool \<Rightarrow>
   ((exc + member list) \<times> 's \<times> http_call list) option"
where
  "download_guild_members http s gid after limit get_all =
     (case (if get_all then get_all_loop http gid limit s [] 0 []
            else (case http s gid limit after of
                    (Inl e, s') \<Rightarrow> Some (Inl e, s', [GetGuildMembers gid limit after])
                  | (Inr next_data, s') \<Rightarrow> Some (Inr ([] @ next_data), s', [GetGuildMembers gid limit after]))) of
        None \<Rightarrow> None
      | Some (Inl e, s', calls) \<Rightarrow> Some (Inl e, s', calls)
      | Some (Inr member_data, s', calls) \<Rightarrow>
          Some (Inr (map (\<lambda>d. \<lparr>datum = d, member_guild_id = gid\<rparr>) member_data), s', calls))"

text \<open>
  A fake member source for tests: it returns the pages of a fixed list one after the
  other, whatever the cursor, and empty pages once the list is used up.
\<close>

definition fake_source :: "member_datum list list http_members" where
  "fake_source pages gid limit after =
     (case pages of [] \<Rightarrow> (Inr [], []) | p # ps \<Rightarrow> (Inr p, ps))"

definition fake_page :: "nat \<Rightarrow> nat \<Rightarrow> member_datum list" where
  "fake_page lo n = map (\<lambda>i. \<lparr>user_id = int i, payload = []\<rparr>) [lo..<lo + n]"

text \<open>The username rules as the specification words them.\<close>

definition username_rule_violated :: "string \<Rightarrow> bool" where
  "username_rule_violated u =
     (contains u ''@'' \<or> contains u '':'' \<or> contains u ''```'' \<or>
      u = ''discordtag'' \<or> u = ''everyone'' \<or> u = ''here'' \<or>
      length u < 2 \<or> 32 < length u)"

section \<open>Emoji equality\<close>

text \<open>
  C9: for all emoji \<open>e1\<close> and \<open>e2\<close>, \<open>e1 == e2\<close> is true exactly when their ids are
  equal, whatever their other attributes; and for every plain string \<open>s\<close>, comparing an
  emoji with \<open>s\<close> gives false.
\<close>

theorem Emoji_eq_by_id:
  "Emoji_eq e1 (OEmoji e2) = Inr (emoji_id e1 = emoji_id e2) \<and> Emoji_eq e1 (OStr s) = Inr False"
  by simp

section \<open>Construction without a client\<close>

text \<open>
  C5 as stated fails: with no \<open>client\<close> keyword the constructor succeeds and the owner
  reference is \<open>None\<close>.
\<close>

theorem Emoji_init_no_client_counterexample:
  "Emoji_init [''id'' \<mapsto> VInt 5] =
     Inr \<lparr>emoji_id = 5, bot = VNone, emoji_name = VNone, role_ids = VList [],
          require_colons = VBool False, managed = VBool False, guild_id = VNone,
          animated = VBool False\<rparr>"
  by (simp add: Emoji_init_def Dataclass_init_def IDObject_init_def kw_get_def)

text \<open>
  C5 (amended): constructing an \<open>Emoji\<close> never fails because of the client argument. The
  constructor fails exactly when \<open>int\<close> fails on the \<open>id\<close> argument, with the error of
  \<open>int\<close>; otherwise it returns an instance whose owner reference is the \<open>client\<close>
  keyword as given, and \<open>None\<close> when the keyword is absent.
\<close>

theorem Emoji_init_client_unchecked:
  "Emoji_init kwargs =
     (case py_int (kw_get kwargs ''id'' VNone) of
        Inl e \<Rightarrow> Inl e
      | Inr n \<Rightarrow>
          Inr \<lparr>emoji_id = n,
               bot = (case kwargs ''client'' of None \<Rightarrow> VNone | Some c \<Rightarrow> c),
               emoji_name = kw_get kwargs ''name'' VNone,
               role_ids = kw_get kwargs ''roles'' (VList []),
               require_colons = kw_get kwargs ''require_colons'' (VBool False),
               managed = kw_get kwargs ''managed'' (VBool False),
               guild_id = VNone,
               animated = kw_get kwargs ''animated'' (VBool False)\<rparr>)"
  by (simp add: Emoji_init_def Dataclass_init_def IDObject_init_def kw_get_def split: sum.splits)


section \<open>The readiness gate\<close>

text \<open>
  The gate of \<open>Client.fire_event\<close>: the event manager is called exactly when the shard
  is ready, or the event is allow-listed, or its name begins with \<open>gateway_\<close>; otherwise
  nothing is called. The events \<open>handle_shard\<close> takes from the gateway pass through it.
\<close>

lemma Client_fire_event_gate:
  "Client_fire_event events_fire ready n args =
     (if ready \<or> n \<in> set IGNORE_READY \<or> startswith n ''gateway_''
      then ([Fire n args], events_fire n args) else ([], None)) \<and>
   consume events_fire [(n, args, ready)] None =
     (if ready \<or> n \<in> set IGNORE_READY \<or> startswith n ''gateway_''
      then ([Fire n args], events_fire n args) else ([], None))"
  by (auto simp: Client_fire_event_def split: option.splits)

text \<open>
  C1, evaluated where the code departs from it: the translation routine of
  \<open>MESSAGE_CREATE\<close> gives the derived event \<open>message_create\<close>, which is neither
  allow-listed nor prefixed with \<open>gateway_\<close>. \<open>Client.fire_event\<close> suppresses that event
  for a shard that is not ready, but \<open>handle_dispatches\<close> never goes through
  \<open>Client.fire_event\<close>: at each of its three firing sites (a plain name, a tuple, the
  tuples of an asynchronous generator) it calls the event manager directly, so the
  event is fired without the readiness of the shard being asked.
\<close>

theorem handle_dispatches_bypasses_gate:
  "Client_fire_event (\<lambda>n args. None) False ''message_create'' [] = ([], None) \<and>
   handle_dispatches
     (\<lambda>n. if n = ''handle_message_create'' then Some (Value (RName ''message_create'')) else None)
     (\<lambda>n args. None) ''MESSAGE_CREATE'' ''{}'' = ([Fire ''message_create'' []], None) \<and>
   handle_dispatches
     (\<lambda>n. if n = ''handle_message_create''
          then Some (Value (RTuple [''message_create'', ''m1''])) else None)
     (\<lambda>n args. None) ''MESSAGE_CREATE'' ''{}'' = ([Fire ''message_create'' [''m1'']], None) \<and>
   handle_dispatches
     (\<lambda>n. if n = ''handle_message_create''
          then Some (AsyncGen [[''message_create'', ''m1'']] None) else None)
     (\<lambda>n args. None) ''MESSAGE_CREATE'' ''{}'' = ([Fire ''message_create'' [''m1'']], None)"
  by code_simp

section \<open>The shard loop\<close>

text \<open>
  C2, evaluated where the code departs from it: a connection whose event sequence ends
  with close code 4004 (a session id being held, the reason not the client's own). The
  inner handler raises the error again, the enclosing \<open>except (WebsocketClosed,
  WebsocketUnusable)\<close> clause catches it, and the loop connects again instead of
  failing: a second \<open>Connect\<close> follows, and the shard ends only when the second connection
  is closed by the client. With close code 4011 likewise the loop is still running
  afterwards, its counter at one.
\<close>

theorem handle_shard_4004_not_fatal:
  "handle_shard (\<lambda>n args. None) 0 0
     [Connected \<lparr>session_id = Some ''s1'', gw_events = [],
                 events_end = Some (WebsocketClosed 4004 ''Authentication failed''),
                 reconnect_result = None\<rparr>,
      Connected \<lparr>session_id = Some ''s2'', gw_events = [],
                 events_end = Some (WebsocketClosed 1000 ''Client closed connection''),
                 reconnect_result = None\<rparr>]
   = ([Connect, Connect], Returned) \<and>
   handle_shard (\<lambda>n args. None) 0 0
     [Connected \<lparr>session_id = Some ''s1'', gw_events = [],
                 events_end = Some (WebsocketClosed 4011 ''Sharding required''),
                 reconnect_result = None\<rparr>]
   = ([Connect], Pending 1)"
  by (simp add: handle_shard.simps outer_try_def inner_try_def on_closed_def)

lemma handle_shard_gives_up:
  "k \<le> 10 \<Longrightarrow>
   handle_shard ef sid k (replicate (10 - k) ConnectFails @ rest) =
     (replicate (10 - k) Connect, Raised RuntimeError)"
proof (induction "10 - k" arbitrary: k)
  case 0
  then have "k = 10" by simp
  then show ?case by (simp add: handle_shard.simps)
next
  case (Suc m)
  then have k: "k < 10" and m: "m = 10 - (k + 1)" and r: "10 - k = Suc (10 - (k + 1))"
    by simp_all
  have "k + 1 \<le> 10" using k by simp
  from Suc.hyps(1) [OF m this]
  have ih: "handle_shard ef sid (k + 1) (replicate (10 - (k + 1)) ConnectFails @ rest) =
      (replicate (10 - (k + 1)) Connect, Raised RuntimeError)" .
  show ?case
    apply (subst r, subst r)
    apply (subst handle_shard.simps)
    using k ih by simp
qed

lemma inner_try_reconnect:
  "inner_try sid c ended = (acts', r) \<Longrightarrow> Reconnect b \<in> set acts' \<Longrightarrow> r = after_reconnect c"
  by (auto simp: inner_try_def on_closed_def split: option.splits exc.splits if_splits)

lemma outer_try_reconnect_fails:
  assumes "consume ef (gw_events c) (events_end c) = (acts, ended)"
    and "inner_try sid c ended = (acts', r)"
    and "Reconnect b \<in> set acts'"
    and "reconnect_result c = Some WebsocketUnusable \<or>
         reconnect_result c = Some (WebsocketClosed code reason)"
  shows "outer_try ef sid c = (acts @ acts', Inl 1)"
proof -
  from inner_try_reconnect [OF assms(2,3)] have "r = after_reconnect c" .
  with assms(4) have "r = IRaise WebsocketUnusable \<or> r = IRaise (WebsocketClosed code reason)"
    by (auto simp: after_reconnect_def)
  with assms(1,2) show ?thesis
    by (auto simp: outer_try_def)
qed

text \<open>
  C3: ten connection failures in a row end the loop with the giving-up error after
  exactly ten connection attempts, whatever the script holds after them; a successful
  connection puts the counter back to zero (the loop goes on as if it had been zero);
  and when a reconnect attempt, in whichever branch it is made, raises a closed or
  unusable transport, the loop goes round with the counter at one, so that nine more
  failures in a row end it.
\<close>

theorem handle_shard_retry_budget:
  "handle_shard ef sid 0 (replicate 10 ConnectFails @ rest) =
     (replicate 10 Connect, Raised RuntimeError) \<and>
   (k < 10 \<longrightarrow>
      handle_shard ef sid k (Connected c # rest) = handle_shard ef sid 0 (Connected c # rest)) \<and>
   (consume ef (gw_events c) (events_end c) = (acts, ended) \<and>
    inner_try sid c ended = (acts', r) \<and> Reconnect b \<in> set acts' \<and>
    (reconnect_result c = Some WebsocketUnusable \<or>
     reconnect_result c = Some (WebsocketClosed code reason)) \<longrightarrow>
      outer_try ef sid c = (acts @ acts', Inl 1) \<and>
      handle_shard ef sid 0 (Connected c # rest) =
        (case handle_shard ef sid 1 rest of (acts'', r') \<Rightarrow> (Connect # (acts @ acts') @ acts'', r')) \<and>
      handle_shard ef sid 0 (Connected c # replicate 9 ConnectFails @ rest) =
        (Connect # (acts @ acts') @ replicate 9 Connect, Raised RuntimeError))"
proof (intro conjI impI)
  show "handle_shard ef sid 0 (replicate 10 ConnectFails @ rest) =
     (replicate 10 Connect, Raised RuntimeError)"
    using handle_shard_gives_up [of 0 ef sid rest] by simp
next
  assume "k < 10"
  then show "handle_shard ef sid k (Connected c # rest) = handle_shard ef sid 0 (Connected c # rest)"
    by (simp add: handle_shard.simps)
next
  assume h: "consume ef (gw_events c) (events_end c) = (acts, ended) \<and>
    inner_try sid c ended = (acts', r) \<and> Reconnect b \<in> set acts' \<and>
    (reconnect_result c = Some WebsocketUnusable \<or>
     reconnect_result c = Some (WebsocketClosed code reason))"
  then show o: "outer_try ef sid c = (acts @ acts', Inl 1)"
    using outer_try_reconnect_fails [of ef c acts ended sid acts' r b code reason] by blast
  show "handle_shard ef sid 0 (Connected c # rest) =
        (case handle_shard ef sid 1 rest of (acts'', r') \<Rightarrow> (Connect # (acts @ acts') @ acts'', r'))"
    by (subst handle_shard.simps) (simp add: o)
  show "handle_shard ef sid 0 (Connected c # replicate 9 ConnectFails @ rest) =
        (Connect # (acts @ acts') @ replicate 9 Connect, Raised RuntimeError)"
    using handle_shard_gives_up [of 1 ef sid rest]
    by (subst handle_shard.simps) (simp add: o)
qed

theorem handle_shard_retry_budget_witness:
  "handle_shard (\<lambda>n args. None) 0 3
     [Connected \<lparr>session_id = Some ''s1'', gw_events = [],
                 events_end = Some (WebsocketClosed 4000 ''Unknown error''),
                 reconnect_result = Some WebsocketUnusable\<rparr>] =
   handle_shard (\<lambda>n args. None) 0 0
     [Connected \<lparr>session_id = Some ''s1'', gw_events = [],
                 events_end = Some (WebsocketClosed 4000 ''Unknown error''),
                 reconnect_result = Some WebsocketUnusable\<rparr>] \<and>
   handle_shard (\<lambda>n args. None) 0 0
     (Connected \<lparr>session_id = Some ''s1'', gw_events = [],
                 events_end = Some (WebsocketClosed 4000 ''Unknown error''),
                 reconnect_result = Some WebsocketUnusable\<rparr> # replicate 9 ConnectFails @ []) =
     (Connect # ([] @ [Reconnect True]) @ replicate 9 Connect, Raised RuntimeError)"
  using handle_shard_retry_budget
    [of "\<lambda>n args. None" 0 "[]" 3
        "\<lparr>session_id = Some ''s1'', gw_events = [],
          events_end = Some (WebsocketClosed 4000 ''Unknown error''),
          reconnect_result = Some WebsocketUnusable\<rparr>" "[]"
        "Some (WebsocketClosed 4000 ''Unknown error'')" "[Reconnect True]"
        "IRaise WebsocketUnusable" True 0 "[]"]
  by (simp add: inner_try_def on_closed_def after_reconnect_def)

section \<open>Failures while handling a dispatch\<close>

text \<open>
  C4, evaluated where the code departs from it: the translation routine of
  \<open>MESSAGE_CREATE\<close> raises. The handler's log message refers to the name \<open>event\<close>, which
  is neither a local of \<open>handle_dispatches\<close> nor a global of the module, so building the
  message raises \<open>NameError\<close>: nothing is logged, the gateway is not closed, and the
  caller receives the \<open>NameError\<close>, not the original failure.
\<close>

theorem handle_dispatches_error_handler_fails:
  "handle_dispatches
     (\<lambda>n. if n = ''handle_message_create'' then Some (Failure (OtherError ''boom'')) else None)
     (\<lambda>n args. None) ''MESSAGE_CREATE'' ''{}'' = ([], Some NameError)"
  by code_simp

section \<open>Editing the profile\<close>

text \<open>
  C7 as stated fails: the empty username has a length outside 2 to 32, yet it is not
  validated (\<open>if username:\<close> is false on it) and the request is sent.
\<close>

theorem edit_profile_empty_username_counterexample:
  "username_rule_violated [] \<and>
   edit_profile id None True (Some []) None None = ([EditUser (Some []) None None], None)"
  by (simp add: username_rule_violated_def edit_profile_def)

lemma check_username_iff:
  "check_username u = (if username_rule_violated u then Some ValueError else None)"
  by (auto simp: check_username_def username_rule_violated_def)

text \<open>
  C7 (amended): \<open>edit_profile\<close> raises the invalid-input error, with no HTTP request
  issued, exactly when the account is a user account and no password is supplied, or a
  non-empty username is supplied that contains \<open>@\<close>, \<open>:\<close> or three backticks, or is one
  of the reserved values, or has a length outside 2 to 32. In every other case,
  including an absent or empty username, exactly one edit-user request is issued.
\<close>

theorem edit_profile_validation:
  "edit_profile base64ify res user_bot username avatar password =
     (if (\<not> user_bot \<and> password = None) \<or>
         (\<exists>u. username = Some u \<and> u \<noteq> [] \<and> username_rule_violated u)
      then ([], Some ValueError)
      else ([EditUser username
               (case avatar of None \<Rightarrow> None | Some a \<Rightarrow> if a \<noteq> [] then Some (base64ify a) else Some a)
               password], res))"
  by (auto simp: edit_profile_def check_username_iff split: option.splits)

section \<open>Downloading the members of a guild\<close>

lemma get_all_loop_calls:
  assumes "get_all_loop http gid limit s calls last_id md = Some y"
  shows "\<exists>ext. snd (snd y) = calls @ GetGuildMembers gid limit (Some last_id) # ext"
proof (rule get_all_loop.raw_induct
    [where P = "\<lambda>http gid limit s calls last_id md y.
                  \<exists>ext. snd (snd y) = calls @ GetGuildMembers gid limit (Some last_id) # ext",
     OF _ assms])
  fix loop :: "'a http_members \<Rightarrow> int \<Rightarrow> int \<Rightarrow> 'a \<Rightarrow> http_call list \<Rightarrow> int \<Rightarrow> member_datum list \<Rightarrow>
     ((exc + member_datum list) \<times> 'a \<times> http_call list) option"
  fix http :: "'a http_members" and gid limit s calls last_id md y
  assume IH: "\<And>http gid limit s calls last_id md y.
      loop http gid limit s calls last_id md = Some y \<Longrightarrow>
      \<exists>ext. snd (snd y) = calls @ GetGuildMembers gid limit (Some last_id) # ext"
  assume body: "(case http s gid limit (Some last_id) of
      (Inl e, s') \<Rightarrow>
        Some (Inl e, s', calls @ [GetGuildMembers gid limit (Some last_id)])
      | (Inr next_data, s') \<Rightarrow>
          if next_data = []
          then Some (Inr md, s', calls @ [GetGuildMembers gid limit (Some last_id)])
          else if int (length next_data) < limit
               then Some (Inr (md @ next_data), s', calls @ [GetGuildMembers gid limit (Some last_id)])
               else loop http gid limit s'
                     (calls @ [GetGuildMembers gid limit (Some last_id)])
                     (user_id (last (md @ next_data)))
                     (md @ next_data)) = Some y"
  show "\<exists>ext. snd (snd y) = calls @ GetGuildMembers gid limit (Some last_id) # ext"
  proof (cases "http s gid limit (Some last_id)")
    case (Pair res s1)
    show ?thesis
    proof (cases res)
      case (Inl e)
      with Pair body show ?thesis by auto
    next
      case (Inr next_data)
      show ?thesis
      proof (cases "next_data = [] \<or> int (length next_data) < limit")
        case True
        with Pair Inr body show ?thesis by (auto split: if_splits)
      next
        case False
        with Pair Inr body have
          "loop http gid limit s1 (calls @ [GetGuildMembers gid limit (Some last_id)])
             (user_id (last (md @ next_data))) (md @ next_data) = Some y"
          by simp
        from IH [OF this] show ?thesis by auto
      qed
    qed
  qed
qed


lemma get_all_loop_fake_source:
  "get_all_loop fake_source gid limit pages calls last_id md =
     Some (Inr (md @ concat (take (Suc (length (takeWhile (\<lambda>p. p \<noteq> [] \<and> \<not> int (length p) < limit) pages))) pages)),
           drop (Suc (length (takeWhile (\<lambda>p. p \<noteq> [] \<and> \<not> int (length p) < limit) pages))) pages,
           calls @ map (\<lambda>c. GetGuildMembers gid limit (Some c))
              (last_id # map (\<lambda>p. user_id (last p)) (takeWhile (\<lambda>p. p \<noteq> [] \<and> \<not> int (length p) < limit) pages)))"
proof (induction pages arbitrary: calls last_id md)
  case Nil
  show ?case by (subst get_all_loop.simps) (simp add: fake_source_def)
next
  case (Cons p ps)
  show ?case
    by (subst get_all_loop.simps) (simp add: fake_source_def Cons.IH)
qed

lemma download_fake_source:
  "download_guild_members fake_source pages gid after limit True =
     Some (Inr (map (\<lambda>d. \<lparr>datum = d, member_guild_id = gid\<rparr>)
                 (concat (take (Suc (length (takeWhile (\<lambda>p. p \<noteq> [] \<and> \<not> int (length p) < limit) pages))) pages))),
           drop (Suc (length (takeWhile (\<lambda>p. p \<noteq> [] \<and> \<not> int (length p) < limit) pages))) pages,
           map (\<lambda>c. GetGuildMembers gid limit (Some c))
              (0 # map (\<lambda>p. user_id (last p)) (takeWhile (\<lambda>p. p \<noteq> [] \<and> \<not> int (length p) < limit) pages)))"
  by (simp add: download_guild_members_def get_all_loop_fake_source)

lemma length_fake_page: "length (fake_page lo n) = n"
  by (simp add: fake_page_def)

text \<open>
  C6: against a source that returns the pages of a list one after the other, the
  exhaustive download requests page after page, the first with cursor 0 and each next
  one with the id of the last member received, up to and including the first page that
  is empty or shorter than the limit, and returns the members of all the pages
  received. With pages of sizes 1000, 1000 and 400 and limit 1000 it issues 3 requests
  and returns 2400 members; with sizes 1000, 1000 and then an empty page it issues 3
  requests and returns 2000 members.
\<close>

theorem download_all_pages:
  "download_guild_members fake_source pages gid after limit True =
     Some (Inr (map (\<lambda>d. \<lparr>datum = d, member_guild_id = gid\<rparr>)
                 (concat (take (Suc (length (takeWhile (\<lambda>p. p \<noteq> [] \<and> \<not> int (length p) < limit) pages))) pages))),
           drop (Suc (length (takeWhile (\<lambda>p. p \<noteq> [] \<and> \<not> int (length p) < limit) pages))) pages,
           map (\<lambda>c. GetGuildMembers gid limit (Some c))
              (0 # map (\<lambda>p. user_id (last p)) (takeWhile (\<lambda>p. p \<noteq> [] \<and> \<not> int (length p) < limit) pages))) \<and>
   (length p1 = 1000 \<and> length p2 = 1000 \<and> length p3 = 400 \<longrightarrow>
      (\<exists>ms calls. download_guild_members fake_source (p1 # p2 # p3 # rest) gid after 1000 True =
           Some (Inr ms, rest, calls) \<and> length ms = 2400 \<and> length calls = 3)) \<and>
   (length p1 = 1000 \<and> length p2 = 1000 \<longrightarrow>
      (\<exists>ms calls. download_guild_members fake_source (p1 # p2 # [] # rest) gid after 1000 True =
           Some (Inr ms, rest, calls) \<and> length ms = 2000 \<and> length calls = 3))"
proof (intro conjI impI)
  show "download_guild_members fake_source pages gid after limit True =
     Some (Inr (map (\<lambda>d. \<lparr>datum = d, member_guild_id = gid\<rparr>)
                 (concat (take (Suc (length (takeWhile (\<lambda>p. p \<noteq> [] \<and> \<not> int (length p) < limit) pages))) pages))),
           drop (Suc (length (takeWhile (\<lambda>p. p \<noteq> [] \<and> \<not> int (length p) < limit) pages))) pages,
           map (\<lambda>c. GetGuildMembers gid limit (Some c))
              (0 # map (\<lambda>p. user_id (last p)) (takeWhile (\<lambda>p. p \<noteq> [] \<and> \<not> int (length p) < limit) pages)))"
    by (rule download_fake_source)
next
  assume h: "length p1 = 1000 \<and> length p2 = 1000 \<and> length p3 = 400"
  then have ne: "p1 \<noteq> []" "p2 \<noteq> []" "p3 \<noteq> []" by auto
  from h ne show "\<exists>ms calls. download_guild_members fake_source (p1 # p2 # p3 # rest) gid after 1000 True =
           Some (Inr ms, rest, calls) \<and> length ms = 2400 \<and> length calls = 3"
    by (simp add: download_fake_source)
next
  assume h: "length p1 = 1000 \<and> length p2 = 1000"
  then have ne: "p1 \<noteq> []" "p2 \<noteq> []" by auto
  from h ne show "\<exists>ms calls. download_guild_members fake_source (p1 # p2 # [] # rest) gid after 1000 True =
           Some (Inr ms, rest, calls) \<and> length ms = 2000 \<and> length calls = 3"
    by (simp add: download_fake_source)
qed

theorem download_all_pages_witness:
  "(\<exists>ms calls. download_guild_members fake_source
        (fake_page 1 1000 # fake_page 1001 1000 # fake_page 2001 400 # []) 7 None 1000 True =
           Some (Inr ms, [], calls) \<and> length ms = 2400 \<and> length calls = 3) \<and>
   (\<exists>ms calls. download_guild_members fake_source
        (fake_page 1 1000 # fake_page 1001 1000 # [] # []) 7 None 1000 True =
           Some (Inr ms, [], calls) \<and> length ms = 2000 \<and> length calls = 3)"
  using download_all_pages [of "[]" 7 None 1000 "fake_page 1 1000" "fake_page 1001 1000" "fake_page 2001 400" "[]"]
  by (simp add: length_fake_page)

text \<open>
  C10: in exhaustive mode the \<open>after\<close> argument is ignored: the download does the same
  whatever the argument, and whenever it returns, its first request is the one with
  cursor 0.
\<close>

theorem download_all_ignores_after:
  "download_guild_members http s gid after limit True =
     download_guild_members http s gid None limit True \<and>
   (download_guild_members http s gid after limit True = Some (r, s', calls) \<longrightarrow>
      (\<exists>ext. calls = GetGuildMembers gid limit (Some 0) # ext))"
proof (intro conjI impI)
  show "download_guild_members http s gid after limit True =
     download_guild_members http s gid None limit True"
    by (simp add: download_guild_members_def)
next
  assume h: "download_guild_members http s gid after limit True = Some (r, s', calls)"
  then obtain y where y: "get_all_loop http gid limit s [] 0 [] = Some y" and c: "snd (snd y) = calls"
    by (auto simp: download_guild_members_def split: option.splits sum.splits prod.splits)
  from get_all_loop_calls [OF y] c show "\<exists>ext. calls = GetGuildMembers gid limit (Some 0) # ext"
    by auto
qed

theorem download_all_ignores_after_witness:
  "download_guild_members fake_source [fake_page 1 3] 7 (Some 55) 1000 True =
     download_guild_members fake_source [fake_page 1 3] 7 None 1000 True \<and>
   download_guild_members fake_source [fake_page 1 3] 7 (Some 55) 1000 True =
     Some (Inr (map (\<lambda>d. \<lparr>datum = d, member_guild_id = 7\<rparr>) (fake_page 1 3)), [],
           [GetGuildMembers 7 1000 (Some 0)]) \<and>
   (\<exists>ext. [GetGuildMembers 7 1000 (Some 0)] = GetGuildMembers 7 1000 (Some 0) # ext)"
  using download_all_ignores_after
    [of fake_source "[fake_page 1 3]" 7 "Some 55" 1000
        "Inr (map (\<lambda>d. \<lparr>datum = d, member_guild_id = 7\<rparr>) (fake_page 1 3))" "[]"
        "[GetGuildMembers 7 1000 (Some 0)]"]
  by (simp add: download_fake_source length_fake_page)


section \<open>Snowflakes: timestamp and construction from a string\<close>

subsection \<open>Rounding\<close>

lemma round_half_even_error: "\<bar>of_int (round_half_even z) - z\<bar> \<le> 1 / 2"
proof -
  have "of_int \<lfloor>z\<rfloor> \<le> z" "z < of_int \<lfloor>z\<rfloor> + 1" by linarith+
  then show ?thesis
    by (auto simp: round_half_even_def Let_def)
qed

lemma round_half_even_near:
  assumes "\<bar>z - of_int n\<bar> < 1 / 2"
  shows "round_half_even z = n"
proof -
  have "\<bar>(of_int (round_half_even z) :: rat) - of_int n\<bar> < 1"
    using round_half_even_error [of z] assms by linarith
  then have "\<bar>round_half_even z - n\<bar> < 1"
    by (metis of_int_1 of_int_abs of_int_diff of_int_less_iff)
  then show ?thesis by simp
qed

lemma round_half_even_of_int: "round_half_even (of_int m) = m"
  by (rule round_half_even_near) simp

lemma bitlen_le: "0 < n \<Longrightarrow> n < 2 ^ w \<Longrightarrow> bitlen n \<le> w"
proof (induction w arbitrary: n)
  case 0
  then show ?case by simp
next
  case (Suc w)
  show ?case
  proof (cases "n div 2 = 0")
    case True
    then show ?thesis using Suc.prems by (simp add: bitlen.simps [of n] bitlen.simps [of 0])
  next
    case False
    then have "0 < n div 2" using Suc.prems by (simp add: pos_imp_zdiv_pos_iff)
    moreover have "n div 2 < 2 ^ w" using Suc.prems by simp
    ultimately have "bitlen (n div 2) \<le> w" by (rule Suc.IH)
    then show ?thesis using Suc.prems by (simp add: bitlen.simps [of n])
  qed
qed

lemma pow2_pos: "0 < pow2 e"
  by (simp add: pow2_def)

lemma pow2_mono: "a \<le> b \<Longrightarrow> pow2 a \<le> pow2 b"
proof -
  assume ab: "a \<le> b"
  have eq: "pow2 e = 2 powi e" for e
    by (simp add: pow2_def power_int_def field_simps)
  show ?thesis unfolding eq using ab by (simp add: power_int_increasing)
qed

lemma ilog2_le:
  assumes "1 \<le> x" "x < 2 ^ w"
  shows "ilog2 x \<le> int w - 1"
proof -
  have "0 < \<lfloor>x\<rfloor>" using assms(1) by simp
  moreover have "\<lfloor>x\<rfloor> < 2 ^ w"
    using assms(2) by (simp add: floor_less_iff)
  ultimately have "bitlen \<lfloor>x\<rfloor> \<le> w" by (rule bitlen_le)
  then show ?thesis using assms(1) by (simp add: ilog2_def)
qed

lemma binary64_error:
  assumes "1 \<le> x" "x < 2 ^ w"
  shows "\<bar>binary64 x - x\<bar> \<le> pow2 (int w - 53) / 2"
proof -
  define u where "u = pow2 (ilog2 x - 52)"
  have u0: "0 < u" by (simp add: u_def pow2_pos)
  have ule: "u \<le> pow2 (int w - 53)"
    unfolding u_def using ilog2_le [OF assms] by (intro pow2_mono) simp
  have x0: "0 < x" "x \<noteq> 0" "\<bar>x\<bar> = x" "sgn x = 1" using assms(1) by simp_all
  have b: "binary64 x = of_int (round_half_even (x / u)) * u"
    by (simp add: binary64_def Let_def x0 u_def)
  have "binary64 x - x = (of_int (round_half_even (x / u)) - x / u) * u"
    using u0 by (simp add: b field_simps)
  then have "\<bar>binary64 x - x\<bar> = \<bar>of_int (round_half_even (x / u)) - x / u\<bar> * u"
    using u0 by (simp add: abs_mult)
  also have "\<dots> \<le> (1 / 2) * u"
    using round_half_even_error [of "x / u"] u0 by (intro mult_right_mono) simp_all
  also have "\<dots> \<le> pow2 (int w - 53) / 2" using ule by simp
  finally show ?thesis .
qed

lemma binary64_of_int:
  assumes "1 \<le> q" "q < 2 ^ 53"
  shows "binary64 (of_int q) = of_int q"
proof -
  define x :: rat where "x = of_int q"
  have x1: "1 \<le> x" using assms(1) by (simp add: x_def)
  have "x < 2 ^ 53"
  proof -
    have "(of_int q :: rat) < of_int (2 ^ 53)" using assms(2) by (simp only: of_int_less_iff)
    then show ?thesis by (simp add: x_def)
  qed
  with x1 have e: "ilog2 x \<le> 52" using ilog2_le [of x 53] by simp
  define d where "d = nat (52 - ilog2 x)"
  have u: "pow2 (ilog2 x - 52) = 1 / 2 ^ d"
    using e by (auto simp: pow2_def d_def)
  have x0: "x \<noteq> 0" "\<bar>x\<bar> = x" "sgn x = 1" using x1 by simp_all
  have "x / (1 / 2 ^ d) = of_int (q * 2 ^ d)" by (simp add: x_def)
  then have "round_half_even (x / (1 / 2 ^ d)) = q * 2 ^ d"
    by (simp only: round_half_even_of_int)
  then have "binary64 x = of_int (q * 2 ^ d) * (1 / 2 ^ d)"
    by (simp add: binary64_def Let_def x0 u)
  then show ?thesis by (simp add: x_def)
qed

text \<open>\<open>ilog2\<close> is the binary exponent: \<open>2 ^ ilog2 x \<le> x < 2 ^ (ilog2 x + 1)\<close>.\<close>

lemma bitlen_bounds: "0 < n \<Longrightarrow> 2 ^ (bitlen n - 1) \<le> n \<and> n < 2 ^ bitlen n"
proof (induction n rule: bitlen.induct)
  case (1 n)
  show ?case
  proof (cases "n div 2 \<le> 0")
    case True
    then have "n = 1" using 1(2) by linarith
    then show ?thesis by (simp add: bitlen.simps [of 1] bitlen.simps [of 0])
  next
    case False
    then have pos: "0 < n div 2" by simp
    have n0: "\<not> n \<le> 0" using 1(2) by simp
    from 1(1) [OF n0 pos] have ih: "2 ^ (bitlen (n div 2) - 1) \<le> n div 2" "n div 2 < 2 ^ bitlen (n div 2)"
      by simp_all
    have bl: "bitlen n = Suc (bitlen (n div 2))" using n0 by (simp add: bitlen.simps [of n])
    have b1: "0 < bitlen (n div 2)" using pos by (simp add: bitlen.simps [of "n div 2"])
    then obtain j where j: "bitlen (n div 2) = Suc j" by (cases "bitlen (n div 2)") simp_all
    have "2 * 2 ^ j \<le> 2 * (n div 2)" using ih(1) by (simp add: j)
    also have "\<dots> \<le> n" by linarith
    finally have lo: "2 ^ (bitlen n - 1) \<le> n" by (simp add: bl j)
    have "n div 2 + 1 \<le> 2 ^ bitlen (n div 2)" using ih(2) by simp
    then have "2 * (n div 2) + 2 \<le> 2 * 2 ^ bitlen (n div 2)" by simp
    moreover have "n < 2 * (n div 2) + 2" by linarith
    ultimately have hi: "n < 2 ^ bitlen n" by (simp add: bl)
    from lo hi show ?thesis by blast
  qed
qed

lemma ilog2_bounds:
  assumes "1 \<le> x"
  shows "pow2 (ilog2 x) \<le> x \<and> x < pow2 (ilog2 x + 1)"
proof -
  have pos: "0 < \<lfloor>x\<rfloor>" using assms by simp
  then have b: "0 < bitlen \<lfloor>x\<rfloor>" by (simp add: bitlen.simps [of "\<lfloor>x\<rfloor>"])
  then obtain j where j: "bitlen \<lfloor>x\<rfloor> = Suc j" by (cases "bitlen \<lfloor>x\<rfloor>") simp_all
  from bitlen_bounds [OF pos] have lo: "2 ^ j \<le> \<lfloor>x\<rfloor>" and hi: "\<lfloor>x\<rfloor> < 2 ^ Suc j"
    by (simp_all add: j)
  have e: "ilog2 x = int j" using assms by (simp add: ilog2_def j)
  have "(2 :: rat) ^ j \<le> of_int \<lfloor>x\<rfloor>" using lo by (metis of_int_le_iff of_int_numeral of_int_power)
  also have "\<dots> \<le> x" by simp
  finally have l: "pow2 (ilog2 x) \<le> x" by (simp add: e pow2_def)
  have "x < of_int (2 ^ Suc j)" using hi by (simp only: floor_less_iff)
  then have "x < 2 ^ Suc j" by simp
  then have h: "x < pow2 (ilog2 x + 1)" by (simp add: e pow2_def nat_add_distrib)
  from l h show ?thesis by blast
qed

text \<open>The double nearest to one tenth.\<close>

lemma binary64_tenth: "binary64 (1 / 10) = 3602879701896397 / 36028797018963968"
  by code_simp

subsection \<open>The timestamp of a whole number of milliseconds\<close>

lemma utcfromtimestamp_millis:
  assumes lo: "1420070400000 \<le> ms" and hi: "ms < 2 ^ 42 + 1420070400000"
  shows "utcfromtimestamp (true_div ms 1000) = Inr (datetime_of (ms div 1000) ((ms mod 1000) * 1000))"
proof -
  define q where "q = ms div 1000"
  define k where "k = ms mod 1000"
  define x :: rat where "x = of_int ms / 1000"
  define t where "t = binary64 x"
  have ms: "ms = 1000 * q + k" by (simp add: q_def k_def)
  have k: "0 \<le> k" "k < 1000" by (simp_all add: k_def)
  have q: "1420070400 \<le> q" "q < 5818116912" using lo hi by (simp_all add: q_def)
  have x: "x = of_int q + of_int k / 1000" by (simp add: x_def ms)
  have t: "true_div ms 1000 = t" by (simp add: true_div_def t_def x_def)
  have x1: "1 \<le> x" using q k by (simp add: x)
  have x33: "x < 2 ^ 33" using q k by (simp add: x)
  have terr: "\<bar>t - x\<bar> \<le> 1 / 2097152"
    using binary64_error [OF x1 x33] by (simp add: t_def pow2_def)
  have range: "\<not> (q < - 62135596800 \<or> 253402300799 < q)" using q by simp
  show ?thesis
  proof (cases "k = 0")
    case True
    have "t = of_int q"
      using binary64_of_int [of q] q by (simp add: t_def x True)
    then show ?thesis
      using q range
      by (simp add: t utcfromtimestamp_def trunc_def Let_def binary64_def round_half_even_of_int
          q_def [symmetric] k_def [symmetric] True
          round_half_even_of_int [of 0, simplified])
  next
    case False
    then have k1: "1 \<le> k" using k by simp
    have kq: "(1 :: rat) \<le> of_int k" "(of_int k :: rat) \<le> 999"
      using k1 k by simp_all
    have e1: "x - 1 / 2097152 \<le> t" using terr by linarith
    have e2: "t \<le> x + 1 / 2097152" using terr by linarith
    have tl: "of_int q < t" using e1 kq unfolding x by linarith
    have tu: "t < of_int q + 1" using e2 kq unfolding x by linarith
    have fl: "\<lfloor>t\<rfloor> = q" using tl tu by (simp add: floor_unique)
    have tr: "trunc t = q" using tl q fl by (simp add: trunc_def)
    define y where "y = (t - of_int q) * 1000000"
    have yx: "y = 1000 * of_int k + (t - x) * 1000000" by (simp add: y_def x field_simps)
    have y_lo: "1000 * of_int k - 1000000 / 2097152 \<le> y"
      using e1 unfolding yx by simp
    have y_hi: "y \<le> 1000 * of_int k + 1000000 / 2097152"
      using e2 unfolding yx by simp
    have y1: "1 \<le> y" using y_lo kq by linarith
    have y20: "y < 2 ^ 20" using y_hi kq by simp
    have "\<bar>binary64 y - y\<bar> \<le> 1 / 17179869184"
      using binary64_error [OF y1 y20] by (simp add: pow2_def)
    then have p1: "y - 1 / 17179869184 \<le> binary64 y" and p2: "binary64 y \<le> y + 1 / 17179869184"
      by (linarith, linarith)
    have "\<bar>binary64 y - 1000 * of_int k\<bar> < 1 / 2"
      using p1 p2 y_lo y_hi by linarith
    then have "\<bar>binary64 y - of_int (1000 * k)\<bar> < 1 / 2"
      by simp
    then have r: "round_half_even (binary64 y) = 1000 * k"
      by (rule round_half_even_near)
    have r': "round_half_even (binary64 ((t - of_int q) * 1000000)) = 1000 * k"
      using r by (simp only: y_def)
    show ?thesis
      unfolding t utcfromtimestamp_def Let_def tr r' q_def [symmetric] k_def [symmetric]
      using range k by (simp add: mult.commute)
  qed
qed

lemma drop_bit_uint_bounds:
  fixes s :: "64 word"
  shows "0 \<le> drop_bit 22 (uint s)" "drop_bit 22 (uint s) < 2 ^ 42"
proof -
  have "uint s < 2 ^ 64" using uint_bounded [of s] by simp
  then show "drop_bit 22 (uint s) < 2 ^ 42"
    by (simp add: drop_bit_eq_div)
  show "0 \<le> drop_bit 22 (uint s)" by simp
qed

subsection \<open>Decimal strings\<close>

lemma digit_char_literals:
  "digit_char 0 = CHR ''0''" "digit_char 1 = CHR ''1''" "digit_char 2 = CHR ''2''"
  "digit_char 3 = CHR ''3''" "digit_char 4 = CHR ''4''" "digit_char 5 = CHR ''5''"
  "digit_char 6 = CHR ''6''" "digit_char 7 = CHR ''7''" "digit_char 8 = CHR ''8''"
  "digit_char 9 = CHR ''9''"
  by code_simp+

lemma digit_char_props:
  assumes "0 \<le> d" "d < 10"
  shows "is_digit (digit_char d)" "digit_val (digit_char d) = d" "\<not> is_space (digit_char d)"
    "digit_char d \<noteq> CHR ''-''" "digit_char d \<noteq> CHR ''+''"
proof -
  from assms have "d = 0 \<or> d = 1 \<or> d = 2 \<or> d = 3 \<or> d = 4 \<or> d = 5 \<or> d = 6 \<or> d = 7 \<or> d = 8 \<or> d = 9"
    by arith
  then show "is_digit (digit_char d)" "digit_val (digit_char d) = d" "\<not> is_space (digit_char d)"
    "digit_char d \<noteq> CHR ''-''" "digit_char d \<noteq> CHR ''+''"
    by (auto simp: digit_char_literals is_digit_def digit_val_def is_space_def)
qed

lemma parse_dec_digits:
  "0 \<le> n \<Longrightarrow> \<exists>k. \<forall>acc p rest. parse_digits acc p (dec_digits n @ rest) = parse_digits (acc * 10 ^ k + n) True rest"
proof (induction n rule: dec_digits.induct)
  case (1 n)
  show ?case
  proof (cases "n < 10")
    case True
    with 1(2) have "\<forall>acc p rest. parse_digits acc p (dec_digits n @ rest) = parse_digits (acc * 10 ^ 1 + n) True rest"
      by (simp add: dec_digits.simps [of n] digit_char_props mult.commute)
    then show ?thesis by blast
  next
    case False
    then have "0 \<le> n div 10" using 1(2) by simp
    from 1(1) [OF False this] obtain k where
      k: "\<And>acc p rest. parse_digits acc p (dec_digits (n div 10) @ rest) = parse_digits (acc * 10 ^ k + n div 10) True rest"
      by blast
    have d: "0 \<le> n mod 10" "n mod 10 < 10" by simp_all
    have "parse_digits acc p (dec_digits n @ rest) = parse_digits (acc * 10 ^ Suc k + n) True rest" for acc p rest
    proof -
      have "parse_digits acc p (dec_digits n @ rest) =
            parse_digits acc p (dec_digits (n div 10) @ (digit_char (n mod 10) # rest))"
        using False by (simp add: dec_digits.simps [of n])
      also have "\<dots> = parse_digits (acc * 10 ^ k + n div 10) True (digit_char (n mod 10) # rest)"
        by (rule k)
      also have "\<dots> = parse_digits (10 * (acc * 10 ^ k + n div 10) + n mod 10) True rest"
        using d by (simp add: digit_char_props)
      also have "10 * (acc * 10 ^ k + n div 10) + n mod 10 = acc * 10 ^ Suc k + n"
        by (simp add: algebra_simps)
      finally show ?thesis .
    qed
    then show ?thesis by blast
  qed
qed

lemma dec_digits_chars:
  "0 \<le> n \<Longrightarrow> dec_digits n \<noteq> [] \<and> (\<forall>c \<in> set (dec_digits n). is_digit c \<and> \<not> is_space c \<and> c \<noteq> CHR ''-'' \<and> c \<noteq> CHR ''+'')"
proof (induction n rule: dec_digits.induct)
  case (1 n)
  show ?case
  proof (cases "n < 10")
    case True
    with 1(2) show ?thesis by (simp add: dec_digits.simps [of n] digit_char_props)
  next
    case False
    then have "0 \<le> n div 10" using 1(2) by simp
    from 1(1) [OF False this] show ?thesis
      using False by (simp add: dec_digits.simps [of n] digit_char_props)
  qed
qed

lemma strip_no_space:
  assumes "\<forall>c \<in> set s. \<not> is_space c"
  shows "strip s = s"
proof -
  have a: "dropWhile is_space s = s" using assms by (cases s) simp_all
  have b: "dropWhile is_space (rev s) = rev s" using assms by (cases "rev s") (simp, metis dropWhile.simps(2) list.set_intros(1) set_rev)
  show ?thesis by (simp add: strip_def a b)
qed

lemma int_of_str_dec_digits:
  assumes "0 \<le> n"
  shows "int_of_str (dec_digits n) = Inr n"
proof -
  from dec_digits_chars [OF assms] obtain c cs where
    s: "dec_digits n = c # cs" and c: "c \<noteq> CHR ''-''" "c \<noteq> CHR ''+''"
    and ns: "\<forall>c \<in> set (dec_digits n). \<not> is_space c"
    by (cases "dec_digits n") auto
  from parse_dec_digits [OF assms] obtain k where
    "parse_digits 0 False (dec_digits n @ []) = parse_digits (0 * 10 ^ k + n) True []"
    by blast
  then have p: "parse_digits 0 False (c # cs) = Some n" by (simp add: s)
  have st: "strip (dec_digits n) = c # cs"
    using strip_no_space [OF ns] by (simp only: s)
  show ?thesis
    unfolding int_of_str_def st using c p by (simp del: parse_digits.simps)
qed

lemma IDObject_init_str:
  "0 \<le> n \<Longrightarrow> IDObject_init (VStr (str_of_int n)) = Inr \<lparr>id_of = VInt n\<rparr>"
  by (simp add: IDObject_init_def str_of_int_def int_of_str_dec_digits)

text \<open>The timestamp of the snowflake 175928847299117063.\<close>

lemma timestamp_example:
  "timestamp \<lparr>id_of = VInt 175928847299117063\<rparr> =
     Inr \<lparr>year = 2016, month = 4, day = 30, hour = 11, minute = 18, second = 25,
          microsecond = 796000\<rparr>"
  by code_simp

text \<open>
  C8: for every 64-bit snowflake \<open>s\<close>, the \<open>timestamp\<close> of the identity object
  constructed from \<open>s\<close> is the UTC calendar time \<open>(s >> 22) + 1420070400000\<close>
  milliseconds after the Unix epoch (the floating-point division and the rounding to
  microseconds lose nothing in this range); and constructing the object from the
  decimal string of \<open>s\<close> gives the same object as constructing it from the integer, the
  two comparing equal.
\<close>

theorem snowflake_timestamp:
  fixes s :: "64 word"
  shows
    "IDObject_init (VInt (uint s)) = Inr \<lparr>id_of = VInt (uint s)\<rparr> \<and>
     timestamp \<lparr>id_of = VInt (uint s)\<rparr> =
       Inr (utc_datetime_from_unix_millis (drop_bit 22 (uint s) + 1420070400000)) \<and>
     IDObject_init (VStr (str_of_int (uint s))) = IDObject_init (VInt (uint s)) \<and>
     IDObject_eq \<lparr>id_of = VInt (uint s)\<rparr> \<lparr>id_of = VInt (uint s)\<rparr>"
proof (intro conjI)
  show i: "IDObject_init (VInt (uint s)) = Inr \<lparr>id_of = VInt (uint s)\<rparr>"
    by (simp add: IDObject_init_def)
  have "utcfromtimestamp (true_div (drop_bit 22 (uint s) + 1420070400000) 1000) =
      Inr (datetime_of ((drop_bit 22 (uint s) + 1420070400000) div 1000)
             (((drop_bit 22 (uint s) + 1420070400000) mod 1000) * 1000))"
    using drop_bit_uint_bounds [of s] by (intro utcfromtimestamp_millis) simp_all
  then show "timestamp \<lparr>id_of = VInt (uint s)\<rparr> =
       Inr (utc_datetime_from_unix_millis (drop_bit 22 (uint s) + 1420070400000))"
    by (simp add: timestamp_def DISCORD_EPOCH_def utc_datetime_from_unix_millis_def)
  show "IDObject_init (VStr (str_of_int (uint s))) = IDObject_init (VInt (uint s))"
    by (simp add: i IDObject_init_str)
  show "IDObject_eq \<lparr>id_of = VInt (uint s)\<rparr> \<lparr>id_of = VInt (uint s)\<rparr>"
    by (simp add: IDObject_eq_def)
qed

end
